theory Spec2Isabelle
  imports Main "HOL-Library.AList" "HOL-Library.Sublist"
begin

section \<open>Values\<close>

text \<open>
  The text that travels over a connection is JSON.  Encoding a JSON value as characters
  and decoding it again are primitives of the runtime, so a wire message is modelled as
  the JSON value it denotes.
\<close>

datatype json =
    JNull
  | JBool bool
  | JNum int
  | JStr string
  | JArr "json list"
  | JObj "(string \<times> json) list"

text \<open>
  Run-time values of the program.  \<open>Sock n\<close> is a reference to the transport object of
  connection \<open>n\<close>; two such references are the same object exactly when the numbers are
  equal.  Numbers are carried through by the program and never computed with; they are
  modelled as integers.
\<close>

datatype jsval =
    Undefined
  | Null
  | Bool bool
  | Num int
  | Str string
  | Arr "jsval list"
  | Obj "(string \<times> jsval) list"
  | Sock nat

type_synonym props = "(string \<times> jsval) list"

datatype error = TypeError | SyntaxError

text \<open>
  \<open>JSON.stringify\<close>: the result is undefined (\<open>None\<close>) for \<open>undefined\<close>; a property
  whose value is \<open>undefined\<close> is left out; an array element that is \<open>undefined\<close> is written
  as \<open>null\<close>.  What a transport object serialises to is decided by the transport library;
  it is the parameter \<open>img\<close>.
\<close>

fun JSON_stringify :: "(nat \<Rightarrow> json) \<Rightarrow> jsval \<Rightarrow> json option"
  and stringify_props :: "(nat \<Rightarrow> json) \<Rightarrow> props \<Rightarrow> (string \<times> json) list"
  and stringify_elems :: "(nat \<Rightarrow> json) \<Rightarrow> jsval list \<Rightarrow> json list"
where
  "JSON_stringify img Undefined = None"
| "JSON_stringify img Null = Some JNull"
| "JSON_stringify img (Bool b) = Some (JBool b)"
| "JSON_stringify img (Num n) = Some (JNum n)"
| "JSON_stringify img (Str s) = Some (JStr s)"
| "JSON_stringify img (Arr xs) = Some (JArr (stringify_elems img xs))"
| "JSON_stringify img (Obj kvs) = Some (JObj (stringify_props img kvs))"
| "JSON_stringify img (Sock n) = Some (img n)"
| "stringify_props img [] = []"
| "stringify_props img (kv # kvs) =
     (case JSON_stringify img (snd kv) of
        None \<Rightarrow> stringify_props img kvs
      | Some j \<Rightarrow> (fst kv, j) # stringify_props img kvs)"
| "stringify_elems img [] = []"
| "stringify_elems img (x # xs) =
     (case JSON_stringify img x of
        None \<Rightarrow> JNull # stringify_elems img xs
      | Some j \<Rightarrow> j # stringify_elems img xs)"

text \<open>\<open>JSON.parse\<close>, from the JSON value that the text denotes.\<close>

fun JSON_parse :: "json \<Rightarrow> jsval"
  and parse_props :: "(string \<times> json) list \<Rightarrow> props"
  and parse_elems :: "json list \<Rightarrow> jsval list"
where
  "JSON_parse JNull = Null"
| "JSON_parse (JBool b) = Bool b"
| "JSON_parse (JNum n) = Num n"
| "JSON_parse (JStr s) = Str s"
| "JSON_parse (JArr xs) = Arr (parse_elems xs)"
| "JSON_parse (JObj kvs) = Obj (parse_props kvs)"
| "parse_props [] = []"
| "parse_props (kv # kvs) = (fst kv, JSON_parse (snd kv)) # parse_props kvs"
| "parse_elems [] = []"
| "parse_elems (x # xs) = JSON_parse x # parse_elems xs"

text \<open>
  Reading a property: a \<open>TypeError\<close> on \<open>undefined\<close> and \<open>null\<close>, the stored value on an
  object, \<open>undefined\<close> wherever the property is absent.  The program reads only the names
  \<open>action\<close>, \<open>nickname\<close>, \<open>message\<close>, \<open>client\<close> and \<open>data\<close>, none of which is a built-in
  property of a string, a number or an array.
\<close>

definition lookup :: "props \<Rightarrow> string \<Rightarrow> jsval" where
  "lookup kvs k = (case map_of kvs k of None \<Rightarrow> Undefined | Some v \<Rightarrow> v)"

fun getProp :: "jsval \<Rightarrow> string \<Rightarrow> error + jsval" where
  "getProp Undefined k = Inl TypeError"
| "getProp Null k = Inl TypeError"
| "getProp (Obj kvs) k = Inr (lookup kvs k)"
| "getProp v k = Inr Undefined"

text \<open>Truthiness of a value in a condition.\<close>

fun truthy :: "jsval \<Rightarrow> bool" where
  "truthy Undefined = False"
| "truthy Null = False"
| "truthy (Bool b) = b"
| "truthy (Num n) = (n \<noteq> 0)"
| "truthy (Str s) = (s \<noteq> [])"
| "truthy v = True"

text \<open>Conversion to a string, as a template literal does it.\<close>

fun digits :: "nat \<Rightarrow> string" where
  "digits n =
     (if n < 10 then [char_of (48 + n)]
      else digits (n div 10) @ [char_of (48 + n mod 10)])"

declare digits.simps [simp del]

definition show_int :: "int \<Rightarrow> string" where
  "show_int i = (if i < 0 then CHR ''-'' # digits (nat (- i)) else digits (nat i))"

fun toString :: "jsval \<Rightarrow> string"
  and join_elems :: "jsval list \<Rightarrow> string"
where
  "toString Undefined = ''undefined''"
| "toString Null = ''null''"
| "toString (Bool b) = (if b then ''true'' else ''false'')"
| "toString (Num n) = show_int n"
| "toString (Str s) = s"
| "toString (Arr xs) = join_elems xs"
| "toString (Obj kvs) = ''[object Object]''"
| "toString (Sock n) = ''[object Object]''"
| "join_elems [] = []"
| "join_elems (x # xs) =
     (if x = Undefined \<or> x = Null then [] else toString x)
       @ (if xs = [] then [] else CHR '','' # join_elems xs)"

subsection \<open>General functions\<close>

text \<open>\<open>isSet\<close>: the variable is declared and set.\<close>

definition isSet :: "jsval \<Rightarrow> bool" where
  "isSet variable = (\<not> (variable = Undefined \<or> variable = Null))"

text \<open>\<open>Array.prototype.indexOf\<close>: the first index holding the element, or \<open>-1\<close>.\<close>

fun indexOf :: "'a list \<Rightarrow> 'a \<Rightarrow> int" where
  "indexOf [] x = - 1"
| "indexOf (y # ys) x =
     (if y = x then 0
      else (let i = indexOf ys x in if i = - 1 then - 1 else i + 1))"

text \<open>\<open>Array.prototype.splice(start, count)\<close> with no inserted elements.\<close>

definition splice :: "nat \<Rightarrow> nat \<Rightarrow> 'a list \<Rightarrow> 'a list" where
  "splice start cnt xs = take start xs @ drop (start + cnt) xs"

section \<open>State of the server\<close>

text \<open>
  A connection is the transport library's object.  The program reads its \<open>readyState\<close>,
  stores a \<open>nickname\<close> property on it and calls its \<open>send\<close>.  \<open>image\<close> is what
  \<open>JSON.stringify\<close> yields for the object; the library decides it.
\<close>

record sock =
  readyState :: nat
  nickname :: jsval
  image :: json

text \<open>The constant \<open>WebSocket.OPEN\<close> of the transport library.\<close>

definition OPEN :: nat where
  "OPEN = 1"

datatype console_entry =
    Log string
  | LogWith string string
  | WarnWith string nat

text \<open>
  \<open>clients\<close> is the array of joined clients, holding references to connections.
  \<open>socks\<close> is the store of connection objects.  \<open>heap\<close> is the store of the objects the
  program creates with an object literal or with \<open>JSON.parse\<close>: the properties of the
  object at each reference, \<open>next_ref\<close> being the first reference not yet in use.  An
  object nested in such an object is reachable through it alone and is kept inline.
  \<open>sent\<close> is the sequence of calls of \<open>send\<close>, each with the connection and the text;
  \<open>console\<close> the lines written to the console; \<open>now\<close> the value of \<open>Date.now()\<close>.
\<close>

record state =
  clients :: "nat list"
  socks :: "nat \<Rightarrow> sock"
  heap :: "nat \<Rightarrow> props"
  next_ref :: nat
  sent :: "(nat \<times> json) list"
  console :: "console_entry list"
  now :: int

definition new_object :: "props \<Rightarrow> state \<Rightarrow> nat \<times> state" where
  "new_object kvs s =
     (next_ref s, s\<lparr>heap := (heap s)(next_ref s := kvs), next_ref := Suc (next_ref s)\<rparr>)"

definition send :: "nat \<Rightarrow> json \<Rightarrow> state \<Rightarrow> state" where
  "send client text s = s\<lparr>sent := sent s @ [(client, text)]\<rparr>"

definition images :: "state \<Rightarrow> nat \<Rightarrow> json" where
  "images s = (\<lambda>n. image (socks s n))"

section \<open>Server functions\<close>

text \<open>Send error back to client.\<close>

definition incomingMessageError :: "nat \<Rightarrow> string \<Rightarrow> state \<Rightarrow> state" where
  "incomingMessageError client err s =
     send client (JObj (stringify_props (images s) [(''error'', Str err)])) s"

text \<open>
  \<open>Array.prototype.forEach\<close> on \<open>clients\<close>: the length is read once, before the first
  call; the indices below it are visited in order, and an index that the array no longer
  has when its turn comes is passed over.  The first argument counts the indices left.
\<close>

fun forEach_from ::
  "nat \<Rightarrow> nat \<Rightarrow> (nat \<Rightarrow> nat \<Rightarrow> state \<Rightarrow> error + state) \<Rightarrow> state \<Rightarrow> error + state"
where
  "forEach_from 0 k f s = Inr s"
| "forEach_from (Suc n) k f s =
     (if k < length (clients s)
      then (case f (clients s ! k) k s of
              Inl e \<Rightarrow> Inl e
            | Inr s' \<Rightarrow> forEach_from n (Suc k) f s')
      else forEach_from n (Suc k) f s)"

definition clients_forEach ::
  "(nat \<Rightarrow> nat \<Rightarrow> state \<Rightarrow> error + state) \<Rightarrow> state \<Rightarrow> error + state"
where
  "clients_forEach f s = forEach_from (length (clients s)) 0 f s"

text \<open>
  The assignment \<open>dataInstance.data.me = true\<close>: a \<open>TypeError\<close> when \<open>dataInstance.data\<close>
  is \<open>undefined\<close> or \<open>null\<close>, a new or overwritten property when it is an object, and no
  visible effect on any other value.
\<close>

definition set_data_me :: "nat \<Rightarrow> state \<Rightarrow> error + state" where
  "set_data_me dataInstance s =
     (case lookup (heap s dataInstance) ''data'' of
        Undefined \<Rightarrow> Inl TypeError
      | Null \<Rightarrow> Inl TypeError
      | Obj d \<Rightarrow>
          Inr (s\<lparr>heap := (heap s)(dataInstance :=
                 AList.update ''data'' (Obj (AList.update ''me'' (Bool True) d))
                   (heap s dataInstance))\<rparr>)
      | _ \<Rightarrow> Inr s)"

text \<open>The callback of \<open>broadcast\<close>, for the client at \<open>index\<close>; \<open>data\<close> refers to the
  broadcast data.\<close>

definition broadcast_callback :: "nat \<Rightarrow> nat \<Rightarrow> nat \<Rightarrow> state \<Rightarrow> error + state" where
  "broadcast_callback data client index s =
     (let (dataInstance, s1) =
            new_object (parse_props (stringify_props (images s) (heap s data))) s;
          s2 = s1\<lparr>heap := (heap s1)(dataInstance :=
                 AList.delete ''client'' (heap s1 dataInstance))\<rparr>
      in case (if truthy (lookup (heap s2 data) ''client'')
                  \<and> lookup (heap s2 data) ''client'' = Sock client
               then set_data_me dataInstance s2
               else Inr s2) of
           Inl e \<Rightarrow> Inl e
         | Inr s3 \<Rightarrow>
             if readyState (socks s3 client) = OPEN
             then Inr (send client
                        (JObj (stringify_props (images s3) (heap s3 dataInstance))) s3)
             else Inr (s3\<lparr>clients := splice index 1 (clients s3),
                          console := console s3 @
                            [WarnWith ''Found & deleted closed client on index'' index]\<rparr>))"

text \<open>Broadcast to all clients.\<close>

definition broadcast :: "nat \<Rightarrow> state \<Rightarrow> error + state" where
  "broadcast data s =
     (if length (clients s) > 0 then clients_forEach (broadcast_callback data) s
      else Inr s)"

section \<open>Server request functions\<close>

text \<open>Join client to the chat.\<close>

definition joinChat :: "nat \<Rightarrow> jsval \<Rightarrow> state \<Rightarrow> error + state" where
  "joinChat client data s =
     (if indexOf (clients s) client \<noteq> - 1
      then Inr (incomingMessageError client ''Client already joined'' s)
      else case getProp data ''nickname'' of
        Inl e \<Rightarrow> Inl e
      | Inr nick \<Rightarrow>
          if \<not> isSet nick
          then Inr (incomingMessageError client ''nickname is missing'' s)
          else
            (let (envelope, s0) =
                   new_object [(''action'', Str ''clientJoin''), (''nickname'', nick)] s
             in case broadcast envelope s0 of
                  Inl e \<Rightarrow> Inl e
                | Inr s1 \<Rightarrow>
                    (let s2 = s1\<lparr>socks := (socks s1)(client :=
                                 (socks s1 client)\<lparr>nickname := nick\<rparr>)\<rparr>;
                         s3 = s2\<lparr>clients := clients s2 @ [client]\<rparr>
                     in Inr (send client
                          (JObj (stringify_props (images s3)
                             [(''action'', Str ''welcomeClient''),
                              (''nickname'', nick),
                              (''message'', Str (''Welcome '' @ toString nick @ ''!''))]))
                          s3))))"

text \<open>Remove client from the chat.\<close>

definition leaveChat :: "nat \<Rightarrow> state \<Rightarrow> error + state" where
  "leaveChat client s =
     (if length (clients s) > 0
      then (let index = indexOf (clients s) client
            in if index \<noteq> - 1
               then (let nick = nickname (socks s client);
                         s1 = s\<lparr>clients := splice (nat index) 1 (clients s)\<rparr>;
                         (envelope, s2) =
                           new_object [(''action'', Str ''clientLeave''), (''nickname'', nick)] s1
                     in broadcast envelope s2)
               else Inr s)
      else Inr s)"

text \<open>Handle incoming chat message.\<close>

definition sendChat :: "nat \<Rightarrow> jsval \<Rightarrow> state \<Rightarrow> error + state" where
  "sendChat client data s =
     (case getProp data ''message'' of
        Inl e \<Rightarrow> Inl e
      | Inr msg \<Rightarrow>
          if \<not> isSet msg
          then Inr (incomingMessageError client ''message is missing'' s)
          else
            (let (envelope, s0) =
                   new_object
                     [(''client'', Sock client),
                      (''action'', Str ''incomingChat''),
                      (''data'', Obj [(''time'', Num (now s)),
                                      (''name'', nickname (socks s client)),
                                      (''content'', msg)])] s
             in broadcast envelope s0))"

text \<open>Handle client nickname change.\<close>

definition changeNickname :: "nat \<Rightarrow> jsval \<Rightarrow> state \<Rightarrow> error + state" where
  "changeNickname client data s =
     (case getProp data ''nickname'' of
        Inl e \<Rightarrow> Inl e
      | Inr nick \<Rightarrow>
          if \<not> isSet nick
          then Inr (incomingMessageError client ''nickname is missing'' s)
          else
            (let oldNickname = nickname (socks s client);
                 s1 = s\<lparr>socks := (socks s)(client := (socks s client)\<lparr>nickname := nick\<rparr>)\<rparr>;
                 (envelope, s2) =
                   new_object
                     [(''action'', Str ''nicknameChange''),
                      (''oldNickname'', oldNickname),
                      (''newNickname'', nick)] s1
             in broadcast envelope s2))"

section \<open>Dispatch\<close>

text \<open>
  The map of server request functions, filled by \<open>init\<close> from the entries of
  \<open>wsFunctions\<close> in the order of their definition.  Its keys are strings, so a value
  that is not a string is not a key.
\<close>

definition wsFunctionsMap :: "(string \<times> (nat \<Rightarrow> jsval \<Rightarrow> state \<Rightarrow> error + state)) list" where
  "wsFunctionsMap =
     [(''joinChat'', joinChat),
      (''leaveChat'', \<lambda>client data. leaveChat client),
      (''sendChat'', sendChat),
      (''changeNickname'', changeNickname)]"

fun wsFunctionsMap_get :: "jsval \<Rightarrow> (nat \<Rightarrow> jsval \<Rightarrow> state \<Rightarrow> error + state) option" where
  "wsFunctionsMap_get (Str name) = map_of wsFunctionsMap name"
| "wsFunctionsMap_get v = None"

definition wsFunctionsMap_has :: "jsval \<Rightarrow> bool" where
  "wsFunctionsMap_has v = (wsFunctionsMap_get v \<noteq> None)"

text \<open>Handle client request.\<close>

definition incomingMessage :: "nat \<Rightarrow> jsval \<Rightarrow> state \<Rightarrow> error + state" where
  "incomingMessage client data s =
     (case getProp data ''action'' of
        Inl e \<Rightarrow> Inl e
      | Inr action \<Rightarrow>
          if \<not> isSet action
          then Inr (incomingMessageError client ''action is missing'' s)
          else if \<not> wsFunctionsMap_has action
          then Inr (incomingMessageError client ''No such action'' s)
          else (case wsFunctionsMap_get action of
                  None \<Rightarrow> Inl TypeError
                | Some handler \<Rightarrow> handler client data s))"

text \<open>
  Handle requests from clients.  \<open>isJSON\<close> is the imported validity check and
  \<open>parse_text\<close> the decoding of a text by \<open>JSON.parse\<close>, \<open>None\<close> where it raises a
  \<open>SyntaxError\<close>; both belong to libraries and are parameters here.
\<close>

definition wsMessage ::
  "(string \<Rightarrow> bool) \<Rightarrow> (string \<Rightarrow> json option) \<Rightarrow> nat \<Rightarrow> string \<Rightarrow> state \<Rightarrow> error + state"
where
  "wsMessage isJSON parse_text client content s =
     (let s0 = s\<lparr>console := console s @ [LogWith ''[WS] Message Recieved:'' content]\<rparr>
      in if isJSON content
         then (case parse_text content of
                 None \<Rightarrow> Inl SyntaxError
               | Some j \<Rightarrow> incomingMessage client (JSON_parse j) s0)
         else Inr (incomingMessageError client ''Invalid JSON format'' s0))"

text \<open>Handle client disconnect.\<close>

definition wsClose :: "nat \<Rightarrow> state \<Rightarrow> error + state" where
  "wsClose client s =
     (case leaveChat client s of
        Inl e \<Rightarrow> Inl e
      | Inr s' \<Rightarrow> Inr (s'\<lparr>console := console s' @ [Log ''[WS] Disconnected'']\<rparr>))"

section \<open>The pass of a broadcast\<close>

text \<open>
  The copy that the callback of \<open>broadcast\<close> prepares for one client, as a function of
  the properties \<open>tmpl\<close> of the broadcast data: the deep copy, without its \<open>client\<close>
  property, with \<open>data.me\<close> set where the client is the one the data names.
\<close>

definition recipient_instance :: "(nat \<Rightarrow> json) \<Rightarrow> props \<Rightarrow> nat \<Rightarrow> error + props" where
  "recipient_instance img tmpl client =
     (let inst = AList.delete ''client'' (parse_props (stringify_props img tmpl))
      in if truthy (lookup tmpl ''client'') \<and> lookup tmpl ''client'' = Sock client
         then (case lookup inst ''data'' of
                 Undefined \<Rightarrow> Inl TypeError
               | Null \<Rightarrow> Inl TypeError
               | Obj d \<Rightarrow>
                   Inr (AList.update ''data'' (Obj (AList.update ''me'' (Bool True) d)) inst)
               | _ \<Rightarrow> Inr inst)
         else Inr inst)"

text \<open>The state with one more object, holding the properties \<open>inst\<close>.\<close>

definition with_instance :: "props \<Rightarrow> state \<Rightarrow> state" where
  "with_instance inst s =
     s\<lparr>heap := (heap s)(next_ref s := inst), next_ref := Suc (next_ref s)\<rparr>"

text \<open>
  What a pass over the clients may change, from \<open>s\<close> to \<open>s'\<close>, when \<open>w r\<close> is the text
  for client \<open>r\<close>: connections and clock are untouched, the objects that existed keep
  their properties, texts are only added, each to a client of \<open>s\<close> whose channel is open,
  and clients are only removed, none of them with an open channel.
\<close>

definition passed :: "(nat \<Rightarrow> json) \<Rightarrow> state \<Rightarrow> state \<Rightarrow> bool" where
  "passed w s s' \<longleftrightarrow>
     socks s' = socks s \<and> now s' = now s \<and> next_ref s \<le> next_ref s' \<and>
     (\<forall>a<next_ref s. heap s' a = heap s a) \<and>
     (\<exists>new. sent s' = sent s @ new \<and>
        (\<forall>x\<in>set new. fst x \<in> set (clients s)
           \<and> readyState (socks s (fst x)) = OPEN \<and> snd x = w (fst x))) \<and>
     subseq (clients s') (clients s) \<and>
     (\<forall>r\<in>set (clients s). readyState (socks s r) = OPEN \<longrightarrow> r \<in> set (clients s')) \<and>
     (\<exists>ws. console s' = console s @ ws)"

text \<open>The text that the callback sends to a client with an open channel.\<close>

definition wire_copy :: "(nat \<Rightarrow> json) \<Rightarrow> props \<Rightarrow> nat \<Rightarrow> json" where
  "wire_copy img tmpl client =
     (case recipient_instance img tmpl client of
        Inl e \<Rightarrow> JNull
      | Inr inst \<Rightarrow> JObj (stringify_props img inst))"

text \<open>The texts passed to \<open>send\<close> on one connection, in order.\<close>

definition outbox :: "state \<Rightarrow> nat \<Rightarrow> json list" where
  "outbox s c = map snd (filter (\<lambda>x. fst x = c) (sent s))"

section \<open>Operations and example states\<close>

text \<open>
  The operations that touch the array of clients.  \<open>Broadcast\<close> is given the properties
  of the object literal that its caller writes.
\<close>

datatype operation =
    JoinChat nat jsval
  | LeaveChat nat
  | SendChat nat jsval
  | ChangeNickname nat jsval
  | Broadcast props
  | Close nat

fun perform :: "operation \<Rightarrow> state \<Rightarrow> error + state" where
  "perform (JoinChat c data) s = joinChat c data s"
| "perform (LeaveChat c) s = leaveChat c s"
| "perform (SendChat c data) s = sendChat c data s"
| "perform (ChangeNickname c data) s = changeNickname c data s"
| "perform (Broadcast tmpl) s = (let (envelope, s0) = new_object tmpl s in broadcast envelope s0)"
| "perform (Close c) s = wsClose c s"

text \<open>\<open>join\<close> followed immediately by \<open>leave\<close>.\<close>

definition join_then_leave :: "nat \<Rightarrow> jsval \<Rightarrow> state \<Rightarrow> error + state" where
  "join_then_leave c data s =
     (case joinChat c data s of Inl e \<Rightarrow> Inl e | Inr s1 \<Rightarrow> leaveChat c s1)"

text \<open>
  A server with the clients \<open>cs\<close> in the array, in which the connections listed in
  \<open>closed\<close> have the ready state \<open>CLOSED\<close> (3) and every other connection is open; no
  connection has a nickname yet and nothing has been sent.
\<close>

definition room :: "nat list \<Rightarrow> nat list \<Rightarrow> state" where
  "room cs closed =
     \<lparr>clients = cs,
      socks = (\<lambda>n. \<lparr>readyState = (if n \<in> set closed then 3 else OPEN),
                     nickname = Undefined, image = JObj []\<rparr>),
      heap = (\<lambda>a. []),
      next_ref = 0,
      sent = [],
      console = [],
      now = 0\<rparr>"

text \<open>
  A validity check and a decoder for the examples: the one text \<open>{}\<close> is valid and
  denotes the empty object.
\<close>

definition valid_text :: "string \<Rightarrow> bool" where
  "valid_text t = (t = ''{}'')"

definition text_value :: "string \<Rightarrow> json option" where
  "text_value t = (if t = ''{}'' then Some (JObj []) else None)"

section \<open>Facts about values and arrays\<close>

lemma stringify_parse:
  "JSON_stringify img (JSON_parse j) = Some j"
  "stringify_props img (parse_props kvs) = kvs"
  "stringify_elems img (parse_elems xs) = xs"
  by (induction j and kvs and xs rule: JSON_parse_parse_props_parse_elems.induct) simp_all

lemma stringify_None: "JSON_stringify img v = None \<longleftrightarrow> v = Undefined"
  by (cases v) simp_all

lemma isSet_stringify: "isSet v \<Longrightarrow> \<exists>j. JSON_stringify img v = Some j"
  by (cases v) (simp_all add: isSet_def)

lemma indexOf_ge: "- 1 \<le> indexOf xs x"
  by (induction xs) (auto simp: Let_def)

lemma indexOf_absent: "indexOf xs x = - 1 \<longleftrightarrow> x \<notin> set xs"
proof (induction xs)
  case Nil
  show ?case by simp
next
  case (Cons y ys)
  have "- 1 \<le> indexOf ys x" by (rule indexOf_ge)
  with Cons show ?case by (auto simp: Let_def)
qed

lemma splice_indexOf: "x \<in> set xs \<Longrightarrow> splice (nat (indexOf xs x)) 1 xs = remove1 x xs"
proof (induction xs)
  case Nil
  then show ?case by simp
next
  case (Cons y ys)
  show ?case
  proof (cases "y = x")
    case True
    then show ?thesis by (simp add: splice_def)
  next
    case False
    with Cons.prems have mem: "x \<in> set ys" by simp
    then have ne: "indexOf ys x \<noteq> - 1" by (simp add: indexOf_absent)
    have ge: "- 1 \<le> indexOf ys x" by (rule indexOf_ge)
    from ne ge have "nat (indexOf ys x + 1) = Suc (nat (indexOf ys x))" by linarith
    with False ne Cons.IH [OF mem] show ?thesis
      by (simp add: splice_def Let_def)
  qed
qed

section \<open>Facts about one pass\<close>

lemma origin_test: "(truthy v \<and> v = Sock c) \<longleftrightarrow> v = Sock c"
  by auto

lemma broadcast_callback_eq:
  assumes "data < next_ref s"
  shows "broadcast_callback data c i s =
    (case recipient_instance (images s) (heap s data) c of
       Inl e \<Rightarrow> Inl e
     | Inr inst \<Rightarrow>
         Inr (if readyState (socks s c) = OPEN
              then send c (JObj (stringify_props (images s) inst)) (with_instance inst s)
              else (with_instance inst s)\<lparr>clients := splice i 1 (clients s),
                     console := console s @
                       [WarnWith ''Found & deleted closed client on index'' i]\<rparr>))"
proof -
  from assms have ne: "data \<noteq> next_ref s" by simp
  show ?thesis
  proof (cases "lookup (heap s data) ''client'' = Sock c")
    case False
    with ne show ?thesis
      by (simp add: broadcast_callback_def recipient_instance_def new_object_def
          with_instance_def send_def images_def Let_def origin_test)
  next
    case True
    with ne show ?thesis
      by (cases "lookup (AList.delete ''client''
                  (parse_props (stringify_props (images s) (heap s data)))) ''data''")
         (simp_all add: broadcast_callback_def recipient_instance_def new_object_def
          set_data_me_def with_instance_def send_def images_def Let_def origin_test)
  qed
qed

lemma subseq_set: "subseq xs ys \<Longrightarrow> set xs \<subseteq> set ys"
  by (auto simp: subseq_conv_nths dest: in_set_nthsD)

lemma subseq_distinct: "subseq xs ys \<Longrightarrow> distinct ys \<Longrightarrow> distinct xs"
  by (auto simp: subseq_conv_nths intro: distinct_nthsI)

lemma subseq_splice: "subseq (splice i n xs) xs"
proof -
  have "subseq (drop n (drop i xs)) (drop i xs)"
    by (rule suffix_imp_subseq) (rule suffix_drop)
  then have "subseq (drop (i + n) xs) (drop i xs)"
    by (simp add: add.commute)
  then have "subseq (take i xs @ drop (i + n) xs) (take i xs @ drop i xs)"
    by (intro list_emb_append_mono subseq_order.order_refl)
  then show ?thesis by (simp add: splice_def)
qed

lemma set_splice_keeps:
  assumes "x \<in> set xs" "i < length xs" "x \<noteq> xs ! i"
  shows "x \<in> set (splice i 1 xs)"
proof -
  have e: "xs = take i xs @ xs ! i # drop (Suc i) xs"
    using assms(2) by (rule id_take_nth_drop)
  from assms(1) have "x \<in> set (take i xs @ xs ! i # drop (Suc i) xs)"
    by (subst e [symmetric])
  with assms(3) show ?thesis by (auto simp: splice_def)
qed

lemma passed_refl: "passed w s s"
  by (simp add: passed_def)

lemma passed_trans:
  assumes "passed w s s1" "passed w s1 s2"
  shows "passed w s s2"
proof -
  from assms(1) obtain n1 c1 where
    1: "socks s1 = socks s" "now s1 = now s" "next_ref s \<le> next_ref s1"
       "\<forall>a<next_ref s. heap s1 a = heap s a"
       "sent s1 = sent s @ n1"
       "\<forall>x\<in>set n1. fst x \<in> set (clients s) \<and> readyState (socks s (fst x)) = OPEN \<and> snd x = w (fst x)"
       "subseq (clients s1) (clients s)"
       "\<forall>r\<in>set (clients s). readyState (socks s r) = OPEN \<longrightarrow> r \<in> set (clients s1)"
       "console s1 = console s @ c1"
    unfolding passed_def by blast
  from assms(2) obtain n2 c2 where
    2: "socks s2 = socks s1" "now s2 = now s1" "next_ref s1 \<le> next_ref s2"
       "\<forall>a<next_ref s1. heap s2 a = heap s1 a"
       "sent s2 = sent s1 @ n2"
       "\<forall>x\<in>set n2. fst x \<in> set (clients s1) \<and> readyState (socks s1 (fst x)) = OPEN \<and> snd x = w (fst x)"
       "subseq (clients s2) (clients s1)"
       "\<forall>r\<in>set (clients s1). readyState (socks s1 r) = OPEN \<longrightarrow> r \<in> set (clients s2)"
       "console s2 = console s1 @ c2"
    unfolding passed_def by blast
  have sub: "set (clients s1) \<subseteq> set (clients s)"
    using 1(7) by (rule subseq_set) 
  have a: "socks s2 = socks s" "now s2 = now s" "next_ref s \<le> next_ref s2"
    using 1 2 by simp_all
  have b: "\<forall>a<next_ref s. heap s2 a = heap s a"
    using 1(3,4) 2(4) by auto
  have c: "sent s2 = sent s @ (n1 @ n2)"
    using 1(5) 2(5) by simp
  have d: "\<forall>x\<in>set (n1 @ n2). fst x \<in> set (clients s) \<and> readyState (socks s (fst x)) = OPEN \<and> snd x = w (fst x)"
    using 1(6) 2(6) sub 1(1) by auto
  have e: "subseq (clients s2) (clients s)"
    using 2(7) 1(7) by (rule subseq_order.order_trans)
  have f: "\<forall>r\<in>set (clients s). readyState (socks s r) = OPEN \<longrightarrow> r \<in> set (clients s2)"
    using 1(8) 2(8) 1(1) by auto
  have g: "console s2 = console s @ (c1 @ c2)"
    using 1(9) 2(9) by simp
  show ?thesis
    unfolding passed_def using a b c d e f g by blast
qed

text \<open>One call of the callback, for a client at an index of the array.\<close>

lemma callback_passed:
  assumes ref: "data < next_ref s"
    and inst: "recipient_instance (images s) (heap s data) (clients s ! k) = Inr inst"
    and k: "k < length (clients s)"
    and w: "w (clients s ! k) = JObj (stringify_props (images s) inst)"
  shows "\<exists>s'. broadcast_callback data (clients s ! k) k s = Inr s' \<and> passed w s s'
           \<and> heap s' data = heap s data
           \<and> (readyState (socks s (clients s ! k)) = OPEN \<longrightarrow>
                clients s' = clients s \<and> console s' = console s
                \<and> sent s' = sent s @ [(clients s ! k, w (clients s ! k))])"
proof (cases "readyState (socks s (clients s ! k)) = OPEN")
  case True
  let ?s' = "send (clients s ! k) (JObj (stringify_props (images s) inst)) (with_instance inst s)"
  have eq: "broadcast_callback data (clients s ! k) k s = Inr ?s'"
    using ref inst True by (simp add: broadcast_callback_eq)
  have mem: "clients s ! k \<in> set (clients s)" using k by simp
  have "passed w s ?s'"
    unfolding passed_def using True mem w
    by (simp add: send_def with_instance_def)
  moreover have "heap ?s' data = heap s data"
    using ref by (simp add: send_def with_instance_def)
  moreover have "clients ?s' = clients s \<and> console ?s' = console s
      \<and> sent ?s' = sent s @ [(clients s ! k, w (clients s ! k))]"
    using w by (simp add: send_def with_instance_def)
  ultimately show ?thesis using eq by blast
next
  case False
  let ?s' = "(with_instance inst s)\<lparr>clients := splice k 1 (clients s),
               console := console s @ [WarnWith ''Found & deleted closed client on index'' k]\<rparr>"
  have eq: "broadcast_callback data (clients s ! k) k s = Inr ?s'"
    using ref inst False by (simp add: broadcast_callback_eq)
  have keep: "\<forall>r\<in>set (clients s). readyState (socks s r) = OPEN \<longrightarrow> r \<in> set (splice k 1 (clients s))"
  proof (intro ballI impI)
    fix r
    assume r: "r \<in> set (clients s)" and "readyState (socks s r) = OPEN"
    with False have "r \<noteq> clients s ! k" by auto
    with r k show "r \<in> set (splice k 1 (clients s))" by (rule set_splice_keeps)
  qed
  have "passed w s ?s'"
    unfolding passed_def using keep
    by (simp add: with_instance_def subseq_splice)
  moreover have "heap ?s' data = heap s data"
    using ref by (simp add: with_instance_def)
  ultimately show ?thesis using eq False by blast
qed

text \<open>The whole pass, from index \<open>k\<close>, whatever the state of the channels.\<close>

lemma forEach_passed:
  assumes "data < next_ref s"
    and "\<forall>c. \<exists>inst. recipient_instance (images s) (heap s data) c = Inr inst
            \<and> w c = JObj (stringify_props (images s) inst)"
  shows "\<exists>s'. forEach_from n k (broadcast_callback data) s = Inr s' \<and> passed w s s'
           \<and> heap s' data = heap s data"
  using assms
proof (induction n arbitrary: k s)
  case 0
  then show ?case by (simp add: passed_refl)
next
  case (Suc n)
  show ?case
  proof (cases "k < length (clients s)")
    case False
    with Suc.IH [OF Suc.prems, of "Suc k"] show ?thesis by simp
  next
    case True
    from Suc.prems(2) obtain inst where
      inst: "recipient_instance (images s) (heap s data) (clients s ! k) = Inr inst"
        "w (clients s ! k) = JObj (stringify_props (images s) inst)"
      by blast
    from callback_passed [where w = w, OF Suc.prems(1) inst(1) True inst(2)] obtain s1 where
      s1: "broadcast_callback data (clients s ! k) k s = Inr s1" "passed w s s1"
        "heap s1 data = heap s data"
      by blast
    from s1(2) have same: "socks s1 = socks s" "next_ref s \<le> next_ref s1"
      by (simp_all add: passed_def)
    from same(1) have img: "images s1 = images s" by (simp add: images_def)
    from same(2) Suc.prems(1) have ref1: "data < next_ref s1" by simp
    have inst1: "\<forall>c. \<exists>inst. recipient_instance (images s1) (heap s1 data) c = Inr inst
            \<and> w c = JObj (stringify_props (images s1) inst)"
      using Suc.prems(2) img s1(3) by simp
    from Suc.IH [OF ref1 inst1, of "Suc k"] obtain s' where
      s': "forEach_from n (Suc k) (broadcast_callback data) s1 = Inr s'" "passed w s1 s'"
        "heap s' data = heap s1 data"
      by blast
    have "forEach_from (Suc n) k (broadcast_callback data) s = Inr s'"
      using True s1(1) s'(1) by simp
    moreover have "passed w s s'" using s1(2) s'(2) by (rule passed_trans)
    moreover have "heap s' data = heap s data" using s'(3) s1(3) by simp
    ultimately show ?thesis by blast
  qed
qed

text \<open>The pass when every client from index \<open>k\<close> on has an open channel.\<close>

lemma forEach_all_open:
  assumes "data < next_ref s"
    and "\<forall>c. \<exists>inst. recipient_instance (images s) (heap s data) c = Inr inst
            \<and> w c = JObj (stringify_props (images s) inst)"
    and "\<forall>r\<in>set (drop k (clients s)). readyState (socks s r) = OPEN"
    and "n = length (clients s) - k"
  shows "\<exists>s'. forEach_from n k (broadcast_callback data) s = Inr s'
           \<and> clients s' = clients s \<and> console s' = console s
           \<and> sent s' = sent s @ map (\<lambda>r. (r, w r)) (drop k (clients s))"
  using assms
proof (induction n arbitrary: k s)
  case 0
  then show ?case by simp
next
  case (Suc n)
  from Suc.prems(4) have k: "k < length (clients s)" by simp
  then have dropk: "drop k (clients s) = clients s ! k # drop (Suc k) (clients s)"
    by (simp add: Cons_nth_drop_Suc)
  with Suc.prems(3) have opn: "readyState (socks s (clients s ! k)) = OPEN" by simp
  from Suc.prems(2) obtain inst where
    inst: "recipient_instance (images s) (heap s data) (clients s ! k) = Inr inst"
      "w (clients s ! k) = JObj (stringify_props (images s) inst)"
    by blast
  from callback_passed [where w = w, OF Suc.prems(1) inst(1) k inst(2)] opn obtain s1 where
    s1: "broadcast_callback data (clients s ! k) k s = Inr s1" "passed w s s1"
      "heap s1 data = heap s data" "clients s1 = clients s" "console s1 = console s"
      "sent s1 = sent s @ [(clients s ! k, w (clients s ! k))]"
    by blast
  from s1(2) have same: "socks s1 = socks s" "next_ref s \<le> next_ref s1"
    by (simp_all add: passed_def)
  from same(1) have img: "images s1 = images s" by (simp add: images_def)
  from same(2) Suc.prems(1) have ref1: "data < next_ref s1" by simp
  have inst1: "\<forall>c. \<exists>inst. recipient_instance (images s1) (heap s1 data) c = Inr inst
          \<and> w c = JObj (stringify_props (images s1) inst)"
    using Suc.prems(2) img s1(3) by simp
  have open1: "\<forall>r\<in>set (drop (Suc k) (clients s1)). readyState (socks s1 r) = OPEN"
    using Suc.prems(3) dropk s1(4) same(1) by simp
  have n1: "n = length (clients s1) - Suc k"
    using Suc.prems(4) s1(4) by simp
  from Suc.IH [OF ref1 inst1 open1 n1] obtain s' where
    s': "forEach_from n (Suc k) (broadcast_callback data) s1 = Inr s'"
      "clients s' = clients s1" "console s' = console s1"
      "sent s' = sent s1 @ map (\<lambda>r. (r, w r)) (drop (Suc k) (clients s1))"
    by blast
  have "forEach_from (Suc n) k (broadcast_callback data) s = Inr s'"
    using k s1(1) s'(1) by simp
  moreover have "sent s' = sent s @ map (\<lambda>r. (r, w r)) (drop k (clients s))"
    using s'(4) s1(4,6) dropk by simp
  ultimately show ?case using s'(2,3) s1(4,5) by simp
qed

lemma broadcast_passed:
  assumes "data < next_ref s"
    and "\<forall>c. \<exists>inst. recipient_instance (images s) (heap s data) c = Inr inst
            \<and> w c = JObj (stringify_props (images s) inst)"
  shows "\<exists>s'. broadcast data s = Inr s' \<and> passed w s s' \<and> heap s' data = heap s data"
proof (cases "length (clients s) > 0")
  case True
  with forEach_passed [OF assms, of "length (clients s)" 0] show ?thesis
    by (simp add: broadcast_def clients_forEach_def)
next
  case False
  then show ?thesis by (simp add: broadcast_def passed_refl)
qed

lemma broadcast_all_open:
  assumes "data < next_ref s"
    and "\<forall>c. \<exists>inst. recipient_instance (images s) (heap s data) c = Inr inst
            \<and> w c = JObj (stringify_props (images s) inst)"
    and "\<forall>r\<in>set (clients s). readyState (socks s r) = OPEN"
  shows "\<exists>s'. broadcast data s = Inr s'
           \<and> clients s' = clients s \<and> console s' = console s
           \<and> sent s' = sent s @ map (\<lambda>r. (r, w r)) (clients s)"
proof (cases "length (clients s) > 0")
  case True
  have "\<forall>r\<in>set (drop 0 (clients s)). readyState (socks s r) = OPEN"
    using assms(3) by simp
  from forEach_all_open [OF assms(1,2) this, of "length (clients s)"] True show ?thesis
    by (simp add: broadcast_def clients_forEach_def)
next
  case False
  then show ?thesis by (simp add: broadcast_def)
qed

text \<open>The copies of the broadcast data.\<close>

lemma stringify_props_append:
  "stringify_props img (xs @ ys) = stringify_props img xs @ stringify_props img ys"
  by (induction xs) (auto split: option.splits)

lemma map_of_parse_props:
  "map_of (parse_props kvs) k = map_option JSON_parse (map_of kvs k)"
  by (induction kvs) auto

lemma map_of_stringify_props:
  "map_of kvs k = None \<Longrightarrow> map_of (stringify_props img kvs) k = None"
  by (induction kvs) (auto split: option.splits if_splits)

lemma delete_absent: "map_of kvs k = None \<Longrightarrow> AList.delete k kvs = kvs"
  by (induction kvs) (auto split: if_splits)

lemma update_absent: "map_of kvs k = None \<Longrightarrow> AList.update k v kvs = kvs @ [(k, v)]"
  by (induction kvs) (auto split: if_splits)

lemma plain_instance:
  assumes "map_of tmpl ''client'' = None"
  shows "recipient_instance img tmpl c = Inr (parse_props (stringify_props img tmpl))"
proof -
  from assms have "lookup tmpl ''client'' = Undefined" by (simp add: lookup_def)
  moreover have "map_of (parse_props (stringify_props img tmpl)) ''client'' = None"
    using assms by (simp add: map_of_parse_props map_of_stringify_props)
  ultimately show ?thesis
    by (simp add: recipient_instance_def delete_absent)
qed

lemma chat_instance:
  assumes "map_of d ''me'' = None"
  shows "\<exists>inst. recipient_instance img
            [(''client'', Sock origin), (''action'', Str a), (''data'', Obj d)] c = Inr inst
          \<and> stringify_props img' inst =
              [(''action'', JStr a),
               (''data'', JObj (stringify_props img d
                   @ (if c = origin then [(''me'', JBool True)] else [])))]"
proof -
  have none: "map_of (parse_props (stringify_props img d)) ''me'' = None"
    using assms by (simp add: map_of_parse_props map_of_stringify_props)
  show ?thesis
    by (simp add: recipient_instance_def lookup_def update_absent [OF none]
        stringify_props_append stringify_parse)
qed

lemma incomingMessageError_eq:
  "incomingMessageError c e s = s\<lparr>sent := sent s @ [(c, JObj [(''error'', JStr e)])]\<rparr>"
  by (simp add: incomingMessageError_def send_def)

section \<open>Rejected join requests\<close>

text \<open>
  Claim C7.  A join request from a connection that is already in the array of clients
  (the very same connection object) is answered with the error \<open>Client already joined\<close>,
  before anything is changed; otherwise a request whose nickname is \<open>undefined\<close> or \<open>null\<close>
  is answered with the error \<open>nickname is missing\<close>.  On both paths the resulting state
  is the old one with this single reply added to the texts sent: there is no broadcast,
  and the array of clients and the nickname of the connection are as before.
\<close>

theorem joinChat_rejects:
  "(c \<in> set (clients s) \<longrightarrow>
      joinChat c data s = Inr (s\<lparr>sent := sent s @ [(c, JObj [(''error'', JStr ''Client already joined'')])]\<rparr>))
   \<and> (c \<notin> set (clients s) \<and> getProp data ''nickname'' = Inr nick \<and> (nick = Undefined \<or> nick = Null) \<longrightarrow>
      joinChat c data s = Inr (s\<lparr>sent := sent s @ [(c, JObj [(''error'', JStr ''nickname is missing'')])]\<rparr>))"
  by (auto simp: joinChat_def indexOf_absent incomingMessageError_eq isSet_def)

theorem joinChat_rejects_witness:
  "(0::nat) \<in> set (clients (room [0] []))
   \<and> joinChat 0 (Obj [(''nickname'', Str ''Ann'')]) (room [0] [])
       = Inr ((room [0] [])\<lparr>sent := [(0, JObj [(''error'', JStr ''Client already joined'')])]\<rparr>)
   \<and> (1::nat) \<notin> set (clients (room [0] []))
   \<and> getProp (Obj [(''nickname'', Null)]) ''nickname'' = Inr Null
   \<and> joinChat 1 (Obj [(''nickname'', Null)]) (room [0] [])
       = Inr ((room [0] [])\<lparr>sent := [(1, JObj [(''error'', JStr ''nickname is missing'')])]\<rparr>)"
  using joinChat_rejects [of 0 "room [0] []" "Obj [(''nickname'', Str ''Ann'')]" Undefined]
    joinChat_rejects [of 1 "room [0] []" "Obj [(''nickname'', Null)]" Null]
  by (simp add: room_def lookup_def)

section \<open>Leaving\<close>

lemma leaveChat_absent: "c \<notin> set (clients s) \<Longrightarrow> leaveChat c s = Inr s"
  by (simp add: leaveChat_def indexOf_absent Let_def)

lemma wire_copy_inst:
  assumes "\<forall>c. \<exists>inst. recipient_instance img tmpl c = Inr inst \<and> w c = JObj (stringify_props img inst)"
  shows "w = wire_copy img tmpl"
proof (rule ext)
  fix c
  from assms obtain inst where "recipient_instance img tmpl c = Inr inst"
    "w c = JObj (stringify_props img inst)" by blast
  then show "w c = wire_copy img tmpl c" by (simp add: wire_copy_def)
qed

lemma plain_wire:
  assumes "map_of tmpl ''client'' = None"
  shows "\<forall>c. \<exists>inst. recipient_instance img tmpl c = Inr inst
           \<and> JObj (stringify_props img tmpl) = JObj (stringify_props img inst)"
  using assms by (simp add: plain_instance stringify_parse)

text \<open>The state in which a handler calls \<open>broadcast\<close> on the object literal \<open>tmpl\<close>.\<close>

lemma broadcast_literal:
  assumes "\<forall>c. \<exists>inst. recipient_instance (images s) tmpl c = Inr inst
            \<and> w c = JObj (stringify_props (images s) inst)"
  shows "\<exists>s'. broadcast (next_ref s) (with_instance tmpl s) = Inr s'
           \<and> passed w (with_instance tmpl s) s' \<and> heap s' (next_ref s) = tmpl"
proof -
  let ?s0 = "with_instance tmpl s"
  have ref: "next_ref s < next_ref ?s0" by (simp add: with_instance_def)
  have img: "images ?s0 = images s" by (simp add: with_instance_def images_def)
  have hp: "heap ?s0 (next_ref s) = tmpl" by (simp add: with_instance_def)
  from assms img hp have "\<forall>c. \<exists>inst. recipient_instance (images ?s0) (heap ?s0 (next_ref s)) c = Inr inst
            \<and> w c = JObj (stringify_props (images ?s0) inst)"
    by simp
  from broadcast_passed [OF ref this] hp show ?thesis by simp
qed

lemma broadcast_literal_all_open:
  assumes "\<forall>c. \<exists>inst. recipient_instance (images s) tmpl c = Inr inst
            \<and> w c = JObj (stringify_props (images s) inst)"
    and "\<forall>r\<in>set (clients s). readyState (socks s r) = OPEN"
  shows "\<exists>s'. broadcast (next_ref s) (with_instance tmpl s) = Inr s'
           \<and> clients s' = clients s \<and> console s' = console s
           \<and> sent s' = sent s @ map (\<lambda>r. (r, w r)) (clients s)"
proof -
  let ?s0 = "with_instance tmpl s"
  have ref: "next_ref s < next_ref ?s0" by (simp add: with_instance_def)
  have img: "images ?s0 = images s" by (simp add: with_instance_def images_def)
  have hp: "heap ?s0 (next_ref s) = tmpl" by (simp add: with_instance_def)
  from assms(1) img hp have 1: "\<forall>c. \<exists>inst. recipient_instance (images ?s0) (heap ?s0 (next_ref s)) c = Inr inst
            \<and> w c = JObj (stringify_props (images ?s0) inst)"
    by simp
  have 2: "\<forall>r\<in>set (clients ?s0). readyState (socks ?s0 r) = OPEN"
    using assms(2) by (simp add: with_instance_def)
  from broadcast_all_open [OF ref 1 2] show ?thesis by (simp add: with_instance_def)
qed

lemma leaveChat_member:
  assumes "c \<in> set (clients s)"
  shows "leaveChat c s =
     broadcast (next_ref s)
       (with_instance [(''action'', Str ''clientLeave''), (''nickname'', nickname (socks s c))]
          (s\<lparr>clients := remove1 c (clients s)\<rparr>))"
proof -
  from assms have "clients s \<noteq> []" by auto
  moreover from assms have "indexOf (clients s) c \<noteq> - 1" by (simp add: indexOf_absent)
  ultimately show ?thesis using assms
    by (simp add: leaveChat_def Let_def new_object_def with_instance_def splice_indexOf
        del: One_nat_def)
qed

text \<open>
  Claim C8.  For a connection that is not in the array of clients, leaving changes
  nothing at all: the state is returned as it is, without a broadcast and without an
  error, and a transport close adds only its console line.  Hence leaving twice is the
  same as leaving once: after a leave from a duplicate-free array the connection is
  not a client any more, and the second leave returns the state unchanged.
\<close>

theorem leaveChat_nonmember_noop:
  "(c \<notin> set (clients s) \<longrightarrow>
      leaveChat c s = Inr s
      \<and> wsClose c s = Inr (s\<lparr>console := console s @ [Log ''[WS] Disconnected'']\<rparr>))
   \<and> (distinct (clients s) \<and> leaveChat c s = Inr s' \<longrightarrow> leaveChat c s' = Inr s')"
proof (intro conjI impI)
  assume "c \<notin> set (clients s)"
  then show "leaveChat c s = Inr s" by (rule leaveChat_absent)
next
  assume "c \<notin> set (clients s)"
  then show "wsClose c s = Inr (s\<lparr>console := console s @ [Log ''[WS] Disconnected'']\<rparr>)"
    by (simp add: wsClose_def leaveChat_absent)
next
  assume a: "distinct (clients s) \<and> leaveChat c s = Inr s'"
  show "leaveChat c s' = Inr s'"
  proof (cases "c \<in> set (clients s)")
    case False
    with a show ?thesis by (simp add: leaveChat_absent)
  next
    case True
    let ?tmpl = "[(''action'', Str ''clientLeave''), (''nickname'', nickname (socks s c))]"
    let ?s1 = "s\<lparr>clients := remove1 c (clients s)\<rparr>"
    let ?w = "\<lambda>r::nat. JObj (stringify_props (images ?s1) ?tmpl)"
    have "map_of ?tmpl ''client'' = None" by simp
    from broadcast_literal [where w = ?w, OF plain_wire [OF this]] obtain s2 where
      s2: "broadcast (next_ref ?s1) (with_instance ?tmpl ?s1) = Inr s2"
        "passed ?w (with_instance ?tmpl ?s1) s2"
      by blast
    from True a s2(1) have "s' = s2" by (simp add: leaveChat_member)
    moreover from s2(2) have "subseq (clients s2) (remove1 c (clients s))"
      by (simp add: passed_def with_instance_def)
    then have "set (clients s2) \<subseteq> set (remove1 c (clients s))" by (rule subseq_set)
    moreover from a have "c \<notin> set (remove1 c (clients s))" by simp
    ultimately have "c \<notin> set (clients s')" by auto
    then show ?thesis by (rule leaveChat_absent)
  qed
qed

theorem leaveChat_nonmember_noop_witness:
  "(2::nat) \<notin> set (clients (room [0, 1] []))
   \<and> leaveChat 2 (room [0, 1] []) = Inr (room [0, 1] [])
   \<and> distinct (clients (room [0, 1] []))
   \<and> (\<exists>s'. leaveChat 1 (room [0, 1] []) = Inr s' \<and> clients s' = [0] \<and> leaveChat 1 s' = Inr s')"
proof -
  have 1: "(2::nat) \<notin> set (clients (room [0, 1] []))" by (simp add: room_def)
  have 2: "distinct (clients (room [0, 1] []))" by (simp add: room_def)
  obtain s' where 3: "leaveChat 1 (room [0, 1] []) = Inr s'" "clients s' = [0]"
    by (simp add: leaveChat_def room_def broadcast_def clients_forEach_def broadcast_callback_def
     new_object_def send_def images_def lookup_def splice_def OPEN_def Let_def)
  from leaveChat_nonmember_noop [of 2 "room [0, 1] []"] 1
  have "leaveChat 2 (room [0, 1] []) = Inr (room [0, 1] [])" by blast
  moreover from leaveChat_nonmember_noop [of 1 "room [0, 1] []" s'] 2 3
  have "leaveChat 1 s' = Inr s'" by blast
  ultimately show ?thesis using 1 2 3 by blast
qed

end
